theory Spec2Isabelle
  imports Complex_Main "HOL-Library.Log_Nat"
begin

section \<open>Numbers\<close>

text \<open>
  A JavaScript number: \<open>NaN\<close>, an infinity, or a finite value. The two zeros are one
  value (they are equal under \<^verbatim>\<open>===\<close>, and no operation used here tells them apart).
\<close>

datatype number = NaN | PosInf | NegInf | Val real

text \<open>
  Rounding of an exact result to the nearest double, ties to even. \<open>ilog2 a\<close> is the
  binary exponent of \<open>a > 0\<close> (\<open>2 ^ e \<le> a < 2 ^ (e + 1)\<close>); a double has 53 significant
  bits, so its last bit is worth \<open>2 ^ (e - 52)\<close>, and \<open>2 ^ (- 1074)\<close> below the smallest
  normal exponent \<open>- 1022\<close>. A result of exponent 1024 or more, or one that rounds up to
  \<open>2 ^ 1024\<close>, overflows to an infinity.
\<close>

definition pow2 :: "int \<Rightarrow> real" where
  "pow2 e = (if 0 \<le> e then 2 ^ nat e else 1 / 2 ^ nat (- e))"

definition ilog2 :: "real \<Rightarrow> int" where
  "ilog2 x = (if 1 \<le> x then bitlen \<lfloor>x\<rfloor> - 1 else - bitlen (\<lceil>1 / x\<rceil> - 1))"

definition round_even :: "real \<Rightarrow> int" where
  "round_even x =
     (let f = \<lfloor>x\<rfloor>; d = x - of_int f
      in if d < 1 / 2 then f else if 1 / 2 < d then f + 1 else if even f then f else f + 1)"

definition to_double :: "real \<Rightarrow> number" where
  "to_double x =
     (if x = 0 then Val 0
      else
        let a = \<bar>x\<bar>; e = ilog2 a
        in if 1024 \<le> e then (if 0 < x then PosInf else NegInf)
           else
             let q = pow2 (max e (- 1022) - 52); n = round_even (a / q)
             in if e = 1023 \<and> 2 ^ 53 \<le> n then (if 0 < x then PosInf else NegInf)
                else Val (if 0 < x then of_int n * q else - (of_int n * q)))"

text \<open>A value of type \<open>number\<close> that a JavaScript number can hold.\<close>

definition is_double :: "number \<Rightarrow> bool" where
  "is_double x = (case x of Val r \<Rightarrow> to_double r = Val r | _ \<Rightarrow> True)"

text \<open>
  The operations \<^verbatim>\<open>computeDelay\<close> uses: \<^verbatim>\<open>*\<close>, \<^verbatim>\<open>Math.pow\<close> with an integer
  exponent that is not negative, \<^verbatim>\<open>Math.min\<close> of two numbers, \<^verbatim>\<open>Math.floor\<close> and
  \<^verbatim>\<open><=\<close>. ECMAScript leaves the last bit of \<^verbatim>\<open>Math.pow\<close> to the implementation;
  the model takes the correctly rounded power.
\<close>

fun js_mul :: "number \<Rightarrow> number \<Rightarrow> number" where
  "js_mul NaN y = NaN"
| "js_mul x NaN = NaN"
| "js_mul (Val a) (Val b) = to_double (a * b)"
| "js_mul (Val a) y = (if a = 0 then NaN else if (0 < a) = (y = PosInf) then PosInf else NegInf)"
| "js_mul x (Val b) = (if b = 0 then NaN else if (0 < b) = (x = PosInf) then PosInf else NegInf)"
| "js_mul x y = (if x = y then PosInf else NegInf)"

fun js_pow :: "number \<Rightarrow> nat \<Rightarrow> number" where
  "js_pow x 0 = Val 1"
| "js_pow NaN k = NaN"
| "js_pow PosInf k = PosInf"
| "js_pow NegInf k = (if odd k then NegInf else PosInf)"
| "js_pow (Val a) k = to_double (a ^ k)"

fun js_le :: "number \<Rightarrow> number \<Rightarrow> bool" where
  "js_le NaN y = False"
| "js_le x NaN = False"
| "js_le NegInf y = True"
| "js_le x PosInf = True"
| "js_le (Val a) (Val b) = (a \<le> b)"
| "js_le x y = False"

definition js_min :: "number \<Rightarrow> number \<Rightarrow> number" where
  "js_min x y = (if x = NaN \<or> y = NaN then NaN else if js_le x y then x else y)"

fun js_floor :: "number \<Rightarrow> number" where
  "js_floor (Val a) = Val (of_int \<lfloor>a\<rfloor>)"
| "js_floor x = x"

section \<open>Values, errors and options\<close>

text \<open>
  The library is \<^verbatim>\<open>src/index.ts\<close>. Attempt numbers, counters, thresholds and clock
  readings are integers far below \<open>2 ^ 53\<close>, where the arithmetic of JavaScript numbers
  is exact: they are \<open>int\<close>. Delays, the backoff factor and random values are
  double-precision numbers with their rounding, overflow and \<open>NaN\<close>: the type \<open>number\<close>
  below.

  A caught value has type \<open>unknown\<close> in the source. The model lists the values the
  library itself creates and leaves every other thrown value to the parameter \<open>'x\<close>:
  \<^item> \<open>Undefined\<close>: the initial value of \<^verbatim>\<open>lastError\<close>, and an absent \<^verbatim>\<open>signal.reason\<close>;
  \<^item> \<open>AbortError\<close>: \<^verbatim>\<open>new DOMException("Aborted", "AbortError")\<close>;
  \<^item> \<open>RangeError\<close>: \<^verbatim>\<open>new RangeError("maxAttempts must be >= 1")\<close>;
  \<^item> \<open>RetryError attempts lastError\<close> and \<open>CircuitOpenError failures\<close>: the two
    exported error classes, with their fields.
\<close>

datatype 'x thrown =
    Undefined
  | AbortError
  | RangeError
  | RetryError int "'x thrown"
  | CircuitOpenError int
  | OtherError 'x

text \<open>
  An \<^verbatim>\<open>AbortSignal\<close> is described by its reason and by the moment at which it is
  aborted, if ever: before \<^verbatim>\<open>retry\<close> is called, while the operation of attempt \<open>k\<close> is
  awaited, or while the sleep that follows attempt \<open>k\<close> is pending.
\<close>

datatype abort_moment = AtStart | InOp int | InSleep int

record 'x AbortSignal =
  reason :: "'x thrown"
  fires :: "abort_moment option"

text \<open>
  \<^verbatim>\<open>RetryOptions\<close> after the destructuring of lines 129 to 138, every default
  applied. \<open>onRetry\<close> says whether a hook was supplied; its calls are recorded in the
  trace of the run.
\<close>

record 'x RetryOptions =
  maxAttempts :: int
  baseDelay :: number
  maxDelay :: number
  factor :: number
  jitter :: bool
  retryIf :: "('x thrown \<Rightarrow> int \<Rightarrow> bool) option"
  onRetry :: bool
  signal :: "'x AbortSignal option"

definition default_options :: "'x RetryOptions" where
  "default_options =
     \<lparr>maxAttempts = 3, baseDelay = Val 1000, maxDelay = Val 30000, factor = Val 2, jitter = True,
      retryIf = None, onRetry = False, signal = None\<rparr>"

record 'a RetryResult =
  data :: 'a
  attempts :: int

text \<open>
  What a run of \<^verbatim>\<open>retry\<close> does that its caller can observe, in order: the
  operation invoked for an attempt (with the error it threw, if any), the hook called
  with its three arguments, and \<^verbatim>\<open>sleep\<close> called with a delay (with the error the
  sleep rejected with, if it was aborted).
\<close>

datatype 'x event =
    Attempt int "'x thrown option"
  | OnRetry "'x thrown" int number
  | Sleep number "'x thrown option"

text \<open>
  How a call ends for its caller: an exception raised by the call itself, or a promise
  that rejects or fulfils. An \<^verbatim>\<open>async function\<close> never raises: whatever its body
  throws rejects the promise it returned.
\<close>

datatype ('x, 'a) outcome =
    Raised "'x thrown"
  | Rejected "'x thrown"
  | Fulfilled 'a

fun async :: "'x thrown + 'a \<Rightarrow> ('x, 'a) outcome" where
  "async (Inl e) = Rejected e"
| "async (Inr v) = Fulfilled v"

section \<open>Helpers\<close>

text \<open>
  \<^verbatim>\<open>computeDelay\<close>, lines 75 to 87, in the arithmetic of JavaScript numbers. \<open>u\<close> is
  the value \<^verbatim>\<open>Math.random()\<close> returns, read only when jitter is on. Every call site
  passes \<open>attempt \<ge> 1\<close>, so the exponent \<open>attempt - 1\<close> is a natural number.
\<close>

definition computeDelay ::
  "int \<Rightarrow> number \<Rightarrow> number \<Rightarrow> number \<Rightarrow> bool \<Rightarrow> number \<Rightarrow> number" where
  "computeDelay attempt baseDelay' maxDelay' factor' jitter' u =
     (let exponential = js_mul baseDelay' (js_pow factor' (nat (attempt - 1)));
          capped = js_min exponential maxDelay'
      in if \<not> jitter' then capped else js_floor (js_mul u capped))"

text \<open>
  \<^verbatim>\<open>signal?.aborted\<close> at the three places that read it for attempt \<open>k\<close>: line 148
  (before the operation is invoked), line 158 (in the catch block) and line 91 (when
  \<^verbatim>\<open>sleep\<close> starts; nothing is awaited between line 158 and line 91). A signal stays
  aborted once it is aborted.
\<close>

fun aborted_before :: "abort_moment \<Rightarrow> int \<Rightarrow> bool" where
  "aborted_before AtStart k = True"
| "aborted_before (InOp j) k = (j < k)"
| "aborted_before (InSleep j) k = (j < k)"

fun aborted_after :: "abort_moment \<Rightarrow> int \<Rightarrow> bool" where
  "aborted_after AtStart k = True"
| "aborted_after (InOp j) k = (j \<le> k)"
| "aborted_after (InSleep j) k = (j < k)"

fun abort_in_sleep :: "abort_moment \<Rightarrow> int \<Rightarrow> bool" where
  "abort_in_sleep (InSleep j) k = (j = k)"
| "abort_in_sleep _ k = False"

definition signal_aborted ::
  "(abort_moment \<Rightarrow> int \<Rightarrow> bool) \<Rightarrow> 'x AbortSignal option \<Rightarrow> int \<Rightarrow> bool" where
  "signal_aborted rd sig k =
     (case sig of
        None \<Rightarrow> False
      | Some sg \<Rightarrow> (case fires sg of None \<Rightarrow> False | Some m \<Rightarrow> rd m k))"

text \<open>
  \<^verbatim>\<open>signal.reason ?? new DOMException("Aborted", "AbortError")\<close>. The source
  evaluates it only where \<^verbatim>\<open>signal?.aborted\<close> holds, so only with a signal.
\<close>

fun abort_reason :: "'x AbortSignal option \<Rightarrow> 'x thrown" where
  "abort_reason (Some sg) = (if reason sg = Undefined then AbortError else reason sg)"
| "abort_reason None = AbortError"

text \<open>
  \<^verbatim>\<open>sleep\<close>, lines 89 to 107, called after attempt \<open>k\<close>: it rejects at once when the
  signal is already aborted, rejects from the abort listener when the signal is aborted
  before the timer ends, and resolves otherwise.
\<close>

definition sleep :: "number \<Rightarrow> 'x AbortSignal option \<Rightarrow> int \<Rightarrow> 'x thrown + unit" where
  "sleep ms sig k =
     (if signal_aborted aborted_after sig k then Inl (abort_reason sig)
      else if signal_aborted abort_in_sleep sig k then Inl (abort_reason sig)
      else Inr ())"

section \<open>Core retry\<close>

text \<open>
  The \<^verbatim>\<open>for\<close> loop of lines 146 to 176. The operation \<open>fn\<close> is called with the attempt
  number and the caller's state \<open>'s\<close>, and returns what awaiting it gives (\<open>Inl\<close>: it
  threw or rejected) with the new state. \<open>rnd k\<close> is what \<^verbatim>\<open>Math.random()\<close> returns
  in the delay computed after attempt \<open>k\<close>. The loop ends by \<^verbatim>\<open>return\<close>, by
  \<^verbatim>\<open>throw\<close>, or by leaving the loop (\<^verbatim>\<open>break\<close>, or a false loop condition) with
  the current \<^verbatim>\<open>lastError\<close>. The hook and the predicate are taken to return normally
  and to leave the signal alone.
\<close>

datatype ('x, 'a) completion =
    Return 'a
  | Throw "'x thrown"
  | Break "'x thrown"

function retry_loop ::
  "(int \<Rightarrow> 's \<Rightarrow> ('x thrown + 'a) \<times> 's) \<Rightarrow> 'x RetryOptions \<Rightarrow> (int \<Rightarrow> number) \<Rightarrow> int \<Rightarrow>
   'x thrown \<Rightarrow> 's \<Rightarrow> ('x, 'a RetryResult) completion \<times> 'x event list \<times> 's" where
  "retry_loop fn opts rnd attempt lastError s =
     (if \<not> attempt \<le> maxAttempts opts then (Break lastError, [], s)
      else
        let tried =
              (if signal_aborted aborted_before (signal opts) attempt
               then (Inl (abort_reason (signal opts)), [], s)
               else (fst (fn attempt s),
                     [Attempt attempt (case fst (fn attempt s) of Inl e \<Rightarrow> Some e | Inr v \<Rightarrow> None)],
                     snd (fn attempt s)));
            tr = fst (snd tried);
            s' = snd (snd tried)
        in case fst tried of
             Inr v \<Rightarrow> (Return \<lparr>data = v, attempts = attempt\<rparr>, tr, s')
           | Inl error \<Rightarrow>
               if signal_aborted aborted_after (signal opts) attempt then (Throw error, tr, s')
               else if (case retryIf opts of None \<Rightarrow> False | Some p \<Rightarrow> \<not> p error attempt)
               then (Throw error, tr, s')
               else if attempt = maxAttempts opts then (Break error, tr, s')
               else
                 let delay = computeDelay attempt (baseDelay opts) (maxDelay opts) (factor opts)
                               (jitter opts) (rnd attempt);
                     slept = sleep delay (signal opts) attempt;
                     tr1 = tr @ (if onRetry opts then [OnRetry error attempt delay] else [])
                              @ [Sleep delay (case slept of Inl r \<Rightarrow> Some r | Inr u \<Rightarrow> None)]
                 in case slept of
                      Inl r \<Rightarrow> (Throw r, tr1, s')
                    | Inr u \<Rightarrow>
                        let rest = retry_loop fn opts rnd (attempt + 1) error s'
                        in (fst rest, tr1 @ fst (snd rest), snd (snd rest)))"
  by pat_completeness auto
termination
  by (relation "measure (\<lambda>(fn, opts, rnd, attempt, lastError, s). nat (maxAttempts opts + 1 - attempt))")
     auto

declare retry_loop.simps [simp del]

text \<open>
  What follows the loop: a \<^verbatim>\<open>return\<close> or a \<^verbatim>\<open>throw\<close> inside the loop ends the
  function, and leaving the loop reaches the \<^verbatim>\<open>throw new RetryError\<close> of lines 178 to
  183, with \<^verbatim>\<open>maxAttempts\<close> and the current \<^verbatim>\<open>lastError\<close>.
\<close>

fun after_loop :: "int \<Rightarrow> ('x, 'a) completion \<Rightarrow> 'x thrown + 'a" where
  "after_loop n (Return r) = Inr r"
| "after_loop n (Throw e) = Inl e"
| "after_loop n (Break lastError) = Inl (RetryError n lastError)"

text \<open>
  \<^verbatim>\<open>retry\<close>, lines 125 to 183: an \<^verbatim>\<open>async function\<close>, so the \<^verbatim>\<open>RangeError\<close> of
  line 141, the errors the loop rethrows and the final \<^verbatim>\<open>RetryError\<close> all reject the
  returned promise. \<open>retry_body\<close> is the body, \<open>retry\<close> the call as its caller sees it:
  the outcome, the trace of the run and the caller's state after it.
\<close>

definition retry_body ::
  "(int \<Rightarrow> 's \<Rightarrow> ('x thrown + 'a) \<times> 's) \<Rightarrow> 'x RetryOptions \<Rightarrow> (int \<Rightarrow> number) \<Rightarrow> 's \<Rightarrow>
   ('x thrown + 'a RetryResult) \<times> 'x event list \<times> 's" where
  "retry_body fn opts rnd s =
     (if maxAttempts opts < 1 then (Inl RangeError, [], s)
      else
        let run = retry_loop fn opts rnd 1 Undefined s
        in (after_loop (maxAttempts opts) (fst run), snd run))"

definition retry ::
  "(int \<Rightarrow> 's \<Rightarrow> ('x thrown + 'a) \<times> 's) \<Rightarrow> 'x RetryOptions \<Rightarrow> (int \<Rightarrow> number) \<Rightarrow> 's \<Rightarrow>
   ('x, 'a RetryResult) outcome \<times> 'x event list \<times> 's" where
  "retry fn opts rnd s =
     (let done = retry_body fn opts rnd s in (async (fst done), snd done))"

section \<open>Circuit breaker\<close>

text \<open>
  The class \<^verbatim>\<open>CircuitBreaker\<close>, lines 208 to 329: its four mutable fields, its three
  read-only settings, and whether a state-change hook was supplied. \<open>notified\<close> lists
  the calls made to that hook, oldest first. Clock readings (\<^verbatim>\<open>Date.now()\<close>) are
  parameters of the methods that read the clock. The methods of one breaker are taken
  to run one after the other: nothing else touches the breaker while a wrapped
  operation is awaited.
\<close>

datatype CircuitState = Closed | Open | HalfOpen

record CircuitBreaker =
  state :: CircuitState
  failures :: int
  successes :: int
  lastFailureTime :: int
  failureThreshold :: int
  resetTimeout :: int
  halfOpenSuccesses :: int
  onStateChange :: bool
  notified :: "(CircuitState \<times> CircuitState) list"

text \<open>The constructor, lines 219 to 224, with the field initialisers of lines 209 to 212.\<close>

definition new_CircuitBreaker ::
  "int option \<Rightarrow> int option \<Rightarrow> int option \<Rightarrow> bool \<Rightarrow> CircuitBreaker" where
  "new_CircuitBreaker failureThreshold' resetTimeout' halfOpenSuccesses' onStateChange' =
     \<lparr>state = Closed, failures = 0, successes = 0, lastFailureTime = 0,
      failureThreshold = (case failureThreshold' of None \<Rightarrow> 5 | Some n \<Rightarrow> n),
      resetTimeout = (case resetTimeout' of None \<Rightarrow> 60000 | Some n \<Rightarrow> n),
      halfOpenSuccesses = (case halfOpenSuccesses' of None \<Rightarrow> 1 | Some n \<Rightarrow> n),
      onStateChange = onStateChange', notified = []\<rparr>"

text \<open>\<^verbatim>\<open>transition\<close>, lines 322 to 328.\<close>

definition transition :: "CircuitState \<Rightarrow> CircuitBreaker \<Rightarrow> CircuitBreaker" where
  "transition to b =
     (if state b \<noteq> to
      then b\<lparr>state := to,
             notified := notified b @ (if onStateChange b then [(state b, to)] else [])\<rparr>
      else b)"

text \<open>\<^verbatim>\<open>checkHalfOpen\<close>, lines 288 to 296; \<open>now\<close> is \<^verbatim>\<open>Date.now()\<close>.\<close>

definition checkHalfOpen :: "int \<Rightarrow> CircuitBreaker \<Rightarrow> CircuitBreaker" where
  "checkHalfOpen now b =
     (if state b = Open \<and> now - lastFailureTime b \<ge> resetTimeout b
      then (transition HalfOpen b)\<lparr>successes := 0\<rparr>
      else b)"

text \<open>\<^verbatim>\<open>onSuccess\<close>, lines 298 to 309.\<close>

definition onSuccess :: "CircuitBreaker \<Rightarrow> CircuitBreaker" where
  "onSuccess b =
     (if state b = HalfOpen
      then
        let b1 = b\<lparr>successes := successes b + 1\<rparr>
        in if successes b1 \<ge> halfOpenSuccesses b1
           then (transition Closed b1)\<lparr>failures := 0, successes := 0\<rparr>
           else b1
      else b\<lparr>failures := 0\<rparr>)"

text \<open>\<^verbatim>\<open>onFailure\<close>, lines 311 to 320; \<open>now\<close> is \<^verbatim>\<open>Date.now()\<close>.\<close>

definition onFailure :: "int \<Rightarrow> CircuitBreaker \<Rightarrow> CircuitBreaker" where
  "onFailure now b =
     (let b1 = b\<lparr>failures := failures b + 1, lastFailureTime := now\<rparr>
      in if state b1 = HalfOpen then transition Open b1
         else if failures b1 \<ge> failureThreshold b1 then transition Open b1
         else b1)"

text \<open>
  The public readers and \<^verbatim>\<open>reset\<close>, lines 227 to 242. A reader returns its value
  and the breaker as it leaves it.
\<close>

definition getState :: "int \<Rightarrow> CircuitBreaker \<Rightarrow> CircuitState \<times> CircuitBreaker" where
  "getState now b = (let b' = checkHalfOpen now b in (state b', b'))"

definition getFailures :: "CircuitBreaker \<Rightarrow> int \<times> CircuitBreaker" where
  "getFailures b = (failures b, b)"

definition reset :: "CircuitBreaker \<Rightarrow> CircuitBreaker" where
  "reset b = (transition Closed b)\<lparr>failures := 0, successes := 0\<rparr>"

text \<open>
  \<^verbatim>\<open>call\<close>, lines 248 to 263. The wrapped operation \<open>fn\<close> acts on the caller's state
  \<open>'w\<close>; \<open>t0\<close> is the clock read on entry (line 291) and \<open>t1\<close> the clock read once the
  operation has failed (line 313). The result is what awaiting the call gives.
\<close>

definition call ::
  "int \<Rightarrow> ('w \<Rightarrow> ('x thrown + 'a) \<times> 'w) \<Rightarrow> int \<Rightarrow> CircuitBreaker \<times> 'w \<Rightarrow>
   ('x thrown + 'a) \<times> CircuitBreaker \<times> 'w" where
  "call t0 fn t1 bw =
     (let b = checkHalfOpen t0 (fst bw); w = snd bw
      in if state b = Open then (Inl (CircuitOpenError (failures b)), b, w)
         else
           (case fst (fn w) of
              Inr result \<Rightarrow> (Inr result, onSuccess b, snd (fn w))
            | Inl error \<Rightarrow> (Inl error, onFailure t1 b, snd (fn w))))"

text \<open>
  \<^verbatim>\<open>callWithRetry\<close>, lines 269 to 286. \<open>breaker_retryIf\<close> is the predicate of lines
  279 to 283, given the caller's own predicate; \<open>breaker_attempt\<close> is the operation of
  lines 274 to 276 and \<open>breaker_options\<close> the options of lines 277 to 284. \<open>clock k\<close>
  holds the two clock readings of the call made for attempt \<open>k\<close>.
\<close>

fun instanceof_CircuitOpenError :: "'x thrown \<Rightarrow> bool" where
  "instanceof_CircuitOpenError (CircuitOpenError n) = True"
| "instanceof_CircuitOpenError _ = False"

definition breaker_retryIf ::
  "('x thrown \<Rightarrow> int \<Rightarrow> bool) option \<Rightarrow> 'x thrown \<Rightarrow> int \<Rightarrow> bool" where
  "breaker_retryIf user error attempt =
     (if instanceof_CircuitOpenError error then False
      else (case user of None \<Rightarrow> True | Some p \<Rightarrow> p error attempt))"

definition breaker_attempt ::
  "(int \<Rightarrow> 'w \<Rightarrow> ('x thrown + 'a) \<times> 'w) \<Rightarrow> (int \<Rightarrow> int \<times> int) \<Rightarrow> int \<Rightarrow> CircuitBreaker \<times> 'w \<Rightarrow>
   ('x thrown + 'a) \<times> CircuitBreaker \<times> 'w" where
  "breaker_attempt fn clock attempt = call (fst (clock attempt)) (fn attempt) (snd (clock attempt))"

definition breaker_options :: "'x RetryOptions \<Rightarrow> 'x RetryOptions" where
  "breaker_options retryOptions =
     retryOptions\<lparr>retryIf := Some (breaker_retryIf (retryIf retryOptions))\<rparr>"

definition callWithRetry ::
  "(int \<Rightarrow> 'w \<Rightarrow> ('x thrown + 'a) \<times> 'w) \<Rightarrow> 'x RetryOptions \<Rightarrow> (int \<Rightarrow> int \<times> int) \<Rightarrow>
   (int \<Rightarrow> number) \<Rightarrow> CircuitBreaker \<times> 'w \<Rightarrow>
   ('x, 'a RetryResult) outcome \<times> 'x event list \<times> CircuitBreaker \<times> 'w" where
  "callWithRetry fn retryOptions clock rnd bw =
     retry (breaker_attempt fn clock) (breaker_options retryOptions) rnd bw"

section \<open>Runs and traces\<close>

text \<open>A caller making one call after the other, each with its own clock readings.\<close>

fun calls ::
  "(int \<times> ('w \<Rightarrow> ('x thrown + 'a) \<times> 'w) \<times> int) list \<Rightarrow> CircuitBreaker \<times> 'w \<Rightarrow>
   CircuitBreaker \<times> 'w" where
  "calls [] bw = bw"
| "calls (c # cs) bw = calls cs (snd (call (fst c) (fst (snd c)) (snd (snd c)) bw))"

text \<open>The attempt numbers the operation was invoked with, in order.\<close>

fun invocations :: "'x event list \<Rightarrow> int list" where
  "invocations [] = []"
| "invocations (Attempt k r # evs) = k # invocations evs"
| "invocations (ev # evs) = invocations evs"

text \<open>The hook's calls, in order.\<close>

fun hook_calls :: "'x event list \<Rightarrow> ('x thrown \<times> int \<times> number) list" where
  "hook_calls [] = []"
| "hook_calls (OnRetry e k d # evs) = (e, k, d) # hook_calls evs"
| "hook_calls (ev # evs) = hook_calls evs"

text \<open>
  The shape of a trace when a hook is supplied, from attempt \<open>k\<close> on: a block
  \<open>Attempt k (Some e), OnRetry e k d, Sleep d w\<close> for each attempt that is retried, with
  \<open>k\<close> below \<open>maxAttempts\<close> and \<open>d\<close> the delay computed after attempt \<open>k\<close>, the blocks
  numbered consecutively; then at most one more attempt, with neither hook nor sleep
  after it.
\<close>

fun hook_blocks :: "'x RetryOptions \<Rightarrow> (int \<Rightarrow> number) \<Rightarrow> int \<Rightarrow> 'x event list \<Rightarrow> bool" where
  "hook_blocks opts rnd k [] = True"
| "hook_blocks opts rnd k [Attempt a r] = (a = k)"
| "hook_blocks opts rnd k (Attempt a r # OnRetry e a' d # Sleep d' w # evs) =
     (a = k \<and> r = Some e \<and> a' = k \<and> k < maxAttempts opts \<and>
      d = computeDelay k (baseDelay opts) (maxDelay opts) (factor opts) (jitter opts) (rnd k) \<and>
      d' = d \<and> hook_blocks opts rnd (k + 1) evs)"
| "hook_blocks opts rnd k evs = False"

text \<open>
  An attempt that failed with a \<^verbatim>\<open>CircuitOpenError\<close> ends the run: no event follows
  it, and the run rejects with that very error.
\<close>

fun circuit_open_ends :: "('x, 'a) outcome \<Rightarrow> 'x event list \<Rightarrow> bool" where
  "circuit_open_ends r [] = True"
| "circuit_open_ends r (Attempt k (Some (CircuitOpenError n)) # evs) =
     (evs = [] \<and> r = Rejected (CircuitOpenError n))"
| "circuit_open_ends r (ev # evs) = circuit_open_ends r evs"

text \<open>A signal that is absent or never aborted.\<close>

definition never_cancelled :: "'x RetryOptions \<Rightarrow> bool" where
  "never_cancelled opts = (case signal opts of None \<Rightarrow> True | Some sg \<Rightarrow> fires sg = None)"

text \<open>An error the loop goes on after: no predicate, or a predicate that accepts it.\<close>

definition retryable :: "'x RetryOptions \<Rightarrow> 'x thrown \<Rightarrow> int \<Rightarrow> bool" where
  "retryable opts e k = (case retryIf opts of None \<Rightarrow> True | Some p \<Rightarrow> p e k)"

section \<open>Scenarios\<close>

text \<open>
  The operations and settings of the test suite, used to run the model on concrete
  inputs. An operation counts its invocations in its state, as the tests do with
  \<^verbatim>\<open>calls++\<close>.
\<close>

definition always_fails :: "int \<Rightarrow> nat \<Rightarrow> (string thrown + string) \<times> nat" where
  "always_fails attempt n = (Inl (OtherError ''fail''), Suc n)"

definition fails_twice :: "int \<Rightarrow> nat \<Rightarrow> (string thrown + string) \<times> nat" where
  "fails_twice attempt n =
     (if Suc n < 3 then Inl (OtherError ''fail'') else Inr ''ok'', Suc n)"

definition ok_first :: "int \<Rightarrow> nat \<Rightarrow> (string thrown + string) \<times> nat" where
  "ok_first attempt n = (Inr ''ok'', Suc n)"

definition failing_op :: "nat \<Rightarrow> (string thrown + string) \<times> nat" where
  "failing_op n = (Inl (OtherError ''fail''), Suc n)"

definition ok_op :: "nat \<Rightarrow> (string thrown + string) \<times> nat" where
  "ok_op n = (Inr ''ok'', Suc n)"

definition coin :: "int \<Rightarrow> number" where
  "coin k = Val (1 / 2)"

definition frozen_clock :: "int \<Rightarrow> int \<times> int" where
  "frozen_clock k = (0, 0)"

definition slow_clock :: "int \<Rightarrow> int \<times> int" where
  "slow_clock k = (if k = 1 then (0, 0) else if k = 2 then (1000, 1000) else (3000, 3000))"

definition no_jitter :: "real \<Rightarrow> string RetryOptions" where
  "no_jitter b = default_options\<lparr>baseDelay := Val b, jitter := False, onRetry := True\<rparr>"

definition capped_options :: "string RetryOptions" where
  "capped_options = no_jitter 20000"

definition invalid_options :: "string RetryOptions" where
  "invalid_options = default_options\<lparr>maxAttempts := 0\<rparr>"

definition ten_attempts :: "string RetryOptions" where
  "ten_attempts = default_options\<lparr>maxAttempts := 10, baseDelay := Val 0, jitter := False\<rparr>"


definition breaker_of :: "int \<Rightarrow> int \<Rightarrow> int \<Rightarrow> CircuitBreaker" where
  "breaker_of threshold timeout probes =
     new_CircuitBreaker (Some threshold) (Some timeout) (Some probes) True"

definition three_failures ::
  "(int \<times> (nat \<Rightarrow> (string thrown + string) \<times> nat) \<times> int) list" where
  "three_failures = [(0, failing_op, 0), (1, failing_op, 1), (2, failing_op, 2)]"

definition opened :: "CircuitBreaker \<times> nat" where
  "opened = calls three_failures (breaker_of 3 60000 1, 0)"

definition tripped :: "CircuitBreaker \<times> nat" where
  "tripped = calls [(0, failing_op, 0)] (breaker_of 1 50 1, 0)"

definition probing :: "CircuitBreaker \<times> nat" where
  "probing = calls [(0, failing_op, 0), (60, ok_op, 60)] (breaker_of 1 50 2, 0)"

section \<open>Facts about numbers\<close>

lemma to_double_zero: "to_double 0 = Val 0"
  by (simp add: to_double_def)

lemma to_double_one: "to_double 1 = Val 1"
  by code_simp

lemma ilog2_large:
  assumes "2 ^ k \<le> a"
  shows "int k \<le> ilog2 a"
proof -
  have a1: "1 \<le> a" using assms one_le_power [of "2::real" k] by linarith
  have "real_of_int (2 ^ k) \<le> a" using assms by simp
  then have fl: "(2::int) ^ k \<le> \<lfloor>a\<rfloor>" by (simp only: le_floor_iff)
  have "(0::int) < 2 ^ k" by simp
  with fl have pos: "0 < \<lfloor>a\<rfloor>" by linarith
  have "\<lfloor>a\<rfloor> < 2 ^ nat (bitlen \<lfloor>a\<rfloor>)" using bitlen_bounds [OF pos] by simp
  with fl have "(2::int) ^ k < 2 ^ nat (bitlen \<lfloor>a\<rfloor>)" by linarith
  then have "k < nat (bitlen \<lfloor>a\<rfloor>)"
    by (simp only: power_strict_increasing_iff one_less_numeral_iff semiring_norm)
  then show ?thesis using a1 by (simp add: ilog2_def)
qed

lemma to_double_overflow:
  assumes "2 ^ 1024 \<le> x"
  shows "to_double x = PosInf"
proof -
  have "0 < (2::real) ^ 1024" by (rule zero_less_power) simp
  with assms have x: "0 < x" by linarith
  then have "2 ^ 1024 \<le> \<bar>x\<bar>" using assms by simp
  then have "int 1024 \<le> ilog2 \<bar>x\<bar>" by (rule ilog2_large)
  then show ?thesis using x by (simp add: to_double_def Let_def)
qed

lemma js_pow_Val: "js_pow (Val a) k = (if k = 0 then Val 1 else to_double (a ^ k))"
  by (cases k) simp_all

lemma js_mul_one: "is_double b \<Longrightarrow> js_mul b (Val 1) = b"
  by (cases b) (simp_all add: is_double_def)

lemma js_pow_one: "is_double f \<Longrightarrow> js_pow f (Suc 0) = f"
  by (cases f) (simp_all add: is_double_def)

lemma js_min_le: "js_le x y \<Longrightarrow> js_min x y = x"
  by (cases x; cases y) (simp_all add: js_min_def)

section \<open>The retry loop, case by case\<close>

lemma aborted_before_after:
  "signal_aborted aborted_before sig k \<Longrightarrow> signal_aborted aborted_after sig k"
  by (auto simp: signal_aborted_def split: option.splits elim: aborted_before.elims)

lemma retry_loop_exit:
  "\<not> attempt \<le> maxAttempts opts \<Longrightarrow>
   retry_loop fn opts rnd attempt lastError s = (Break lastError, [], s)"
  by (simp add: retry_loop.simps)

lemma retry_loop_aborted_before:
  "attempt \<le> maxAttempts opts \<Longrightarrow> signal_aborted aborted_before (signal opts) attempt \<Longrightarrow>
   retry_loop fn opts rnd attempt lastError s = (Throw (abort_reason (signal opts)), [], s)"
  by (simp add: retry_loop.simps [of fn opts rnd attempt] aborted_before_after)

lemma retry_loop_return:
  "attempt \<le> maxAttempts opts \<Longrightarrow> \<not> signal_aborted aborted_before (signal opts) attempt \<Longrightarrow>
   fst (fn attempt s) = Inr v \<Longrightarrow>
   retry_loop fn opts rnd attempt lastError s =
     (Return \<lparr>data = v, attempts = attempt\<rparr>, [Attempt attempt None], snd (fn attempt s))"
  by (simp add: retry_loop.simps [of fn opts rnd attempt] Let_def)

lemma retry_loop_aborted_after:
  "attempt \<le> maxAttempts opts \<Longrightarrow> \<not> signal_aborted aborted_before (signal opts) attempt \<Longrightarrow>
   fst (fn attempt s) = Inl e \<Longrightarrow> signal_aborted aborted_after (signal opts) attempt \<Longrightarrow>
   retry_loop fn opts rnd attempt lastError s =
     (Throw e, [Attempt attempt (Some e)], snd (fn attempt s))"
  by (simp add: retry_loop.simps [of fn opts rnd attempt] Let_def)

lemma retry_loop_filtered:
  "attempt \<le> maxAttempts opts \<Longrightarrow> \<not> signal_aborted aborted_before (signal opts) attempt \<Longrightarrow>
   fst (fn attempt s) = Inl e \<Longrightarrow> retryIf opts = Some p \<Longrightarrow> \<not> p e attempt \<Longrightarrow>
   retry_loop fn opts rnd attempt lastError s =
     (Throw e, [Attempt attempt (Some e)], snd (fn attempt s))"
  by (simp add: retry_loop.simps [of fn opts rnd attempt] Let_def)

lemma retry_loop_break:
  "\<not> signal_aborted aborted_after (signal opts) (maxAttempts opts) \<Longrightarrow>
   fst (fn (maxAttempts opts) s) = Inl e \<Longrightarrow> retryable opts e (maxAttempts opts) \<Longrightarrow>
   retry_loop fn opts rnd (maxAttempts opts) lastError s =
     (Break e, [Attempt (maxAttempts opts) (Some e)], snd (fn (maxAttempts opts) s))"
  using aborted_before_after [of "signal opts" "maxAttempts opts"]
  by (auto simp add: retry_loop.simps [of fn opts rnd "maxAttempts opts"] retryable_def split: option.splits)

lemma retry_loop_sleep_rejects:
  "attempt < maxAttempts opts \<Longrightarrow> \<not> signal_aborted aborted_after (signal opts) attempt \<Longrightarrow>
   fst (fn attempt s) = Inl e \<Longrightarrow> retryable opts e attempt \<Longrightarrow>
   sleep (computeDelay attempt (baseDelay opts) (maxDelay opts) (factor opts) (jitter opts) (rnd attempt)) (signal opts) attempt = Inl r \<Longrightarrow>
   retry_loop fn opts rnd attempt lastError s =
     (Throw r,
      Attempt attempt (Some e) # (if onRetry opts then [OnRetry e attempt (computeDelay attempt (baseDelay opts) (maxDelay opts) (factor opts) (jitter opts) (rnd attempt))] else []) @ [Sleep (computeDelay attempt (baseDelay opts) (maxDelay opts) (factor opts) (jitter opts) (rnd attempt)) (Some r)],
      snd (fn attempt s))"
  using aborted_before_after [of "signal opts" attempt]
  by (auto simp add: retry_loop.simps [of fn opts rnd attempt] retryable_def Let_def split: option.splits)

lemma retry_loop_continue:
  "attempt < maxAttempts opts \<Longrightarrow> \<not> signal_aborted aborted_after (signal opts) attempt \<Longrightarrow>
   fst (fn attempt s) = Inl e \<Longrightarrow> retryable opts e attempt \<Longrightarrow>
   sleep (computeDelay attempt (baseDelay opts) (maxDelay opts) (factor opts) (jitter opts) (rnd attempt)) (signal opts) attempt = Inr u \<Longrightarrow>
   retry_loop fn opts rnd attempt lastError s =
     (fst (retry_loop fn opts rnd (attempt + 1) e (snd (fn attempt s))),
      Attempt attempt (Some e) # (if onRetry opts then [OnRetry e attempt (computeDelay attempt (baseDelay opts) (maxDelay opts) (factor opts) (jitter opts) (rnd attempt))] else []) @ [Sleep (computeDelay attempt (baseDelay opts) (maxDelay opts) (factor opts) (jitter opts) (rnd attempt)) None]
        @ fst (snd (retry_loop fn opts rnd (attempt + 1) e (snd (fn attempt s)))),
      snd (snd (retry_loop fn opts rnd (attempt + 1) e (snd (fn attempt s)))))"
  using aborted_before_after [of "signal opts" attempt]
  by (auto simp add: retry_loop.simps [of fn opts rnd attempt] retryable_def Let_def split: option.splits)

lemma not_retryable:
  "\<not> retryable opts e k \<Longrightarrow> \<exists>p. retryIf opts = Some p \<and> \<not> p e k"
  by (auto simp: retryable_def split: option.splits)

lemma retry_loop_cases [case_names Exit AbortedBefore Returned Rethrown Exhausted SleepRejected Continued]:
  fixes fn :: "int \<Rightarrow> 's \<Rightarrow> ('x thrown + 'a) \<times> 's"
  obtains
    "\<not> a \<le> maxAttempts opts"
    "retry_loop fn opts rnd a le s = (Break le, [], s)"
  | "a \<le> maxAttempts opts" "signal_aborted aborted_before (signal opts) a"
    "retry_loop fn opts rnd a le s = (Throw (abort_reason (signal opts)), [], s)"
  | v where "a \<le> maxAttempts opts" "fst (fn a s) = Inr v"
    "retry_loop fn opts rnd a le s =
       (Return \<lparr>data = v, attempts = a\<rparr>, [Attempt a None], snd (fn a s))"
  | e where "a \<le> maxAttempts opts" "fst (fn a s) = Inl e"
    "signal_aborted aborted_after (signal opts) a \<or> \<not> retryable opts e a"
    "retry_loop fn opts rnd a le s = (Throw e, [Attempt a (Some e)], snd (fn a s))"
  | e where "a = maxAttempts opts" "fst (fn a s) = Inl e" "retryable opts e a"
    "\<not> signal_aborted aborted_after (signal opts) a"
    "retry_loop fn opts rnd a le s = (Break e, [Attempt a (Some e)], snd (fn a s))"
  | e r where "a < maxAttempts opts" "fst (fn a s) = Inl e" "retryable opts e a"
    "\<not> signal_aborted aborted_after (signal opts) a"
    "sleep (computeDelay a (baseDelay opts) (maxDelay opts) (factor opts) (jitter opts) (rnd a))
       (signal opts) a = Inl r"
    "retry_loop fn opts rnd a le s =
       (Throw r,
        Attempt a (Some e) #
          (if onRetry opts
           then [OnRetry e a (computeDelay a (baseDelay opts) (maxDelay opts) (factor opts)
                   (jitter opts) (rnd a))]
           else []) @
          [Sleep (computeDelay a (baseDelay opts) (maxDelay opts) (factor opts) (jitter opts)
             (rnd a)) (Some r)],
        snd (fn a s))"
  | e where "a < maxAttempts opts" "fst (fn a s) = Inl e" "retryable opts e a"
    "\<not> signal_aborted aborted_after (signal opts) a"
    "sleep (computeDelay a (baseDelay opts) (maxDelay opts) (factor opts) (jitter opts) (rnd a))
       (signal opts) a = Inr ()"
    "retry_loop fn opts rnd a le s =
       (fst (retry_loop fn opts rnd (a + 1) e (snd (fn a s))),
        Attempt a (Some e) #
          (if onRetry opts
           then [OnRetry e a (computeDelay a (baseDelay opts) (maxDelay opts) (factor opts)
                   (jitter opts) (rnd a))]
           else []) @
          [Sleep (computeDelay a (baseDelay opts) (maxDelay opts) (factor opts) (jitter opts)
             (rnd a)) None] @
          fst (snd (retry_loop fn opts rnd (a + 1) e (snd (fn a s)))),
        snd (snd (retry_loop fn opts rnd (a + 1) e (snd (fn a s)))))"
proof (cases "a \<le> maxAttempts opts")
  case False
  then show ?thesis by (intro that(1) retry_loop_exit)
next
  case le: True
  show ?thesis
  proof (cases "signal_aborted aborted_before (signal opts) a")
    case True
    then show ?thesis using le by (intro that(2) retry_loop_aborted_before)
  next
    case nb: False
    show ?thesis
    proof (cases "fst (fn a s)")
      case (Inr v)
      then show ?thesis using le nb by (intro that(3) [of v] retry_loop_return)
    next
      case (Inl e)
      show ?thesis
      proof (cases "signal_aborted aborted_after (signal opts) a")
        case True
        then show ?thesis using le nb Inl by (intro that(4) [of e] retry_loop_aborted_after) simp_all
      next
        case na: False
        show ?thesis
        proof (cases "retryable opts e a")
          case False
          then obtain p where "retryIf opts = Some p" "\<not> p e a"
            using not_retryable by blast
          then show ?thesis using le nb Inl False by (intro that(4) [of e] retry_loop_filtered [where p = p]) simp_all
        next
          case ok: True
          show ?thesis
          proof (cases "a = maxAttempts opts")
            case True
            then show ?thesis using Inl ok na by (intro that(5) [of e]) (simp_all add: retry_loop_break)
          next
            case False
            then have lt: "a < maxAttempts opts" using le by simp
            let ?d = "computeDelay a (baseDelay opts) (maxDelay opts) (factor opts) (jitter opts) (rnd a)"
            show ?thesis
            proof (cases "sleep ?d (signal opts) a")
              case (Inl r)
              show ?thesis
                by (rule that(6) [OF lt \<open>fst (fn a s) = Inl e\<close> ok na Inl])
                   (rule retry_loop_sleep_rejects [where fn = fn and rnd = rnd and attempt = a and s = s, OF lt na \<open>fst (fn a s) = Inl e\<close> ok Inl])
            next
              case (Inr u)
              then have sl: "sleep ?d (signal opts) a = Inr ()" by simp
              show ?thesis
                by (rule that(7) [OF lt \<open>fst (fn a s) = Inl e\<close> ok na sl])
                   (rule retry_loop_continue [where fn = fn and rnd = rnd and attempt = a and s = s, OF lt na \<open>fst (fn a s) = Inl e\<close> ok sl])
            qed
          qed
        qed
      qed
    qed
  qed
qed

lemma invocations_append: "invocations (xs @ ys) = invocations xs @ invocations ys"
  by (induction xs rule: invocations.induct) simp_all

lemma never_cancelled_not_aborted:
  "never_cancelled opts \<Longrightarrow> \<not> signal_aborted rd (signal opts) k"
  by (simp add: never_cancelled_def signal_aborted_def split: option.splits)

lemma never_cancelled_sleep:
  "never_cancelled opts \<Longrightarrow> sleep d (signal opts) k = Inr ()"
  by (simp add: sleep_def never_cancelled_not_aborted)

lemma retry_loop_all_fail:
  fixes fn :: "int \<Rightarrow> 's \<Rightarrow> ('x thrown + 'a) \<times> 's"
  assumes none: "retryIf opts = None" and nc: "never_cancelled opts"
    and fails: "\<forall>k s. \<exists>e. fst (fn k s) = Inl e"
  shows "a \<le> maxAttempts opts \<Longrightarrow>
         \<exists>e tr s'. retry_loop fn opts rnd a le s = (Break e, tr, s') \<and>
           invocations tr = [a..maxAttempts opts] \<and>
           tr \<noteq> [] \<and> last tr = Attempt (maxAttempts opts) (Some e)"
proof (induction "nat (maxAttempts opts - a)" arbitrary: a le s)
  case 0
  then have eq: "a = maxAttempts opts" by simp
  obtain e where e: "fst (fn a s) = Inl e" using fails by blast
  have "retryable opts e a" by (simp add: retryable_def none)
  then have "retry_loop fn opts rnd a le s = (Break e, [Attempt a (Some e)], snd (fn a s))"
    using retry_loop_break [of opts fn s e rnd le] e eq never_cancelled_not_aborted [OF nc]
    by simp
  then show ?case using eq by simp
next
  case (Suc n)
  then have lt: "a < maxAttempts opts" by linarith
  obtain e where e: "fst (fn a s) = Inl e" using fails by blast
  have ok: "retryable opts e a" by (simp add: retryable_def none)
  let ?d = "computeDelay a (baseDelay opts) (maxDelay opts) (factor opts) (jitter opts) (rnd a)"
  let ?rest = "retry_loop fn opts rnd (a + 1) e (snd (fn a s))"
  have step: "retry_loop fn opts rnd a le s =
     (fst ?rest,
      Attempt a (Some e) # (if onRetry opts then [OnRetry e a ?d] else []) @ [Sleep ?d None]
        @ fst (snd ?rest),
      snd (snd ?rest))"
    by (rule retry_loop_continue [where fn = fn and rnd = rnd and attempt = a and s = s,
          OF lt never_cancelled_not_aborted [OF nc] e ok never_cancelled_sleep [OF nc]])
  have "n = nat (maxAttempts opts - (a + 1))" using Suc.hyps(2) by linarith
  moreover have "a + 1 \<le> maxAttempts opts" using lt by simp
  ultimately obtain e' tr' s' where
    rest: "?rest = (Break e', tr', s')" and
    inv: "invocations tr' = [a + 1..maxAttempts opts]" and
    ne: "tr' \<noteq> []" and lst: "last tr' = Attempt (maxAttempts opts) (Some e')"
    using Suc.hyps(1) [of "a + 1" e "snd (fn a s)"] by blast
  have "[a..maxAttempts opts] = a # [a + 1..maxAttempts opts]"
    using lt by (simp add: upto_rec1)
  then show ?case
    using step rest inv ne lst by (simp add: invocations_append)
qed


lemma retry_loop_trace_blocks:
  fixes fn :: "int \<Rightarrow> 's \<Rightarrow> ('x thrown + 'a) \<times> 's"
  assumes hook: "onRetry opts"
  shows "hook_blocks opts rnd a (fst (snd (retry_loop fn opts rnd a le s)))"
proof (induction "nat (maxAttempts opts + 1 - a)" arbitrary: a le s)
  case 0
  then have "\<not> a \<le> maxAttempts opts" by simp
  then show ?case by (simp add: retry_loop_exit)
next
  case (Suc n)
  show ?case
  proof (cases rule: retry_loop_cases [where a = a and opts = opts and rnd = rnd and fn = fn and le = le and s = s])
    case (Continued e)
    have "n = nat (maxAttempts opts + 1 - (a + 1))" using Suc.hyps(2) by linarith
    then have "hook_blocks opts rnd (a + 1)
                 (fst (snd (retry_loop fn opts rnd (a + 1) e (snd (fn a s)))))"
      by (rule Suc.hyps(1))
    then show ?thesis using Continued hook by simp
  qed (simp_all add: hook)
qed

lemma circuit_open_ends_skip:
  "\<not> instanceof_CircuitOpenError e \<Longrightarrow>
   circuit_open_ends r (Attempt k (Some e) # evs) = circuit_open_ends r evs"
  by (cases e) simp_all

lemma circuit_open_ends_final:
  "circuit_open_ends (Rejected e) [Attempt k (Some e)]"
  by (cases e) simp_all

lemma retry_loop_circuit_open_ends:
  fixes fn :: "int \<Rightarrow> 's \<Rightarrow> ('x thrown + 'a) \<times> 's"
  assumes p: "retryIf opts = Some (breaker_retryIf user)"
  shows "circuit_open_ends (async (after_loop m (fst (retry_loop fn opts rnd a le s))))
           (fst (snd (retry_loop fn opts rnd a le s)))"
proof (induction "nat (maxAttempts opts + 1 - a)" arbitrary: a le s)
  case 0
  then have "\<not> a \<le> maxAttempts opts" by simp
  then show ?case by (simp add: retry_loop_exit)
next
  case (Suc n)
  have ok: "\<not> instanceof_CircuitOpenError e" if "retryable opts e a" for e
    using that by (auto simp: retryable_def p breaker_retryIf_def split: if_splits)
  show ?case
  proof (cases rule: retry_loop_cases [where a = a and opts = opts and rnd = rnd and fn = fn and le = le and s = s])
    case (Continued e)
    have "n = nat (maxAttempts opts + 1 - (a + 1))" using Suc.hyps(2) by linarith
    then have "circuit_open_ends
                 (async (after_loop m (fst (retry_loop fn opts rnd (a + 1) e (snd (fn a s))))))
                 (fst (snd (retry_loop fn opts rnd (a + 1) e (snd (fn a s)))))"
      by (rule Suc.hyps(1))
    then show ?thesis using Continued ok [of e] by (simp add: circuit_open_ends_skip)
  next
    case (Rethrown e)
    then show ?thesis by (simp add: circuit_open_ends_final)
  next
    case (Exhausted e)
    then show ?thesis using ok [of e] by (simp add: circuit_open_ends_skip)
  next
    case (SleepRejected e r)
    then show ?thesis using ok [of e] by (simp add: circuit_open_ends_skip)
  qed simp_all
qed

section \<open>Backoff\<close>

text \<open>
  C1 as stated fails where the power overflows: with \<open>baseDelay = 0\<close>, the default
  \<open>factor = 2\<close> and jitter disabled, the delay computed after attempt 1025 is not 0.
  \<^verbatim>\<open>Math.pow(2, 1024)\<close> is \<open>Infinity\<close>, \<^verbatim>\<open>0 * Infinity\<close> is \<open>NaN\<close>, and so is
  \<^verbatim>\<open>Math.min(NaN, 30000)\<close>.
\<close>
theorem computeDelay_overflow_counterexample:
  "js_pow (Val 2) (nat (1025 - 1)) = PosInf \<and>
   computeDelay 1025 (Val 0) (Val 30000) (Val 2) False (Val (1 / 2)) = NaN"
proof -
  have "js_pow (Val 2) 1024 = to_double (2 ^ 1024)" by (simp add: js_pow_Val)
  also have "\<dots> = PosInf" by (rule to_double_overflow) (rule order_refl)
  finally have p: "js_pow (Val 2) 1024 = PosInf" .
  have n: "nat (1025 - 1) = 1024" by simp
  show ?thesis
    unfolding computeDelay_def n p by (simp add: js_min_def)
qed

text \<open>
  C1, amended. With jitter disabled, the delay computed after attempt \<open>n \<ge> 1\<close> is
  \<^verbatim>\<open>Math.min(baseDelay * Math.pow(factor, n - 1), maxDelay)\<close> in the arithmetic of
  JavaScript numbers, whatever the random source returns. For finite settings it is the
  exact \<open>min (baseDelay * factor ^ (n - 1)) maxDelay\<close> whenever the power and the product
  are doubles (nothing is rounded and nothing overflows). With \<open>baseDelay = 0\<close> the
  delay is 0 as long as the power is finite and \<open>maxDelay\<close> is not negative (a
  duration, as the data model has it). With \<open>factor = 1\<close> it is the constant
  \<^verbatim>\<open>Math.min(baseDelay, maxDelay)\<close>.
\<close>
theorem computeDelay_no_jitter:
  "(1 \<le> n \<longrightarrow>
      computeDelay n b m f False u = js_min (js_mul b (js_pow f (nat (n - 1)))) m) \<and>
   (1 \<le> n \<and> to_double (y ^ nat (n - 1)) = Val (y ^ nat (n - 1)) \<and>
    to_double (x * y ^ nat (n - 1)) = Val (x * y ^ nat (n - 1)) \<longrightarrow>
      computeDelay n (Val x) (Val z) (Val y) False u = Val (min (x * y ^ nat (n - 1)) z)) \<and>
   (1 \<le> n \<and> js_pow f (nat (n - 1)) = Val p \<and> js_le (Val 0) m \<longrightarrow>
      computeDelay n (Val 0) m f False u = Val 0) \<and>
   (1 \<le> n \<and> is_double b \<longrightarrow> computeDelay n b m (Val 1) False u = js_min b m)"
proof (intro conjI impI)
  show "computeDelay n b m f False u = js_min (js_mul b (js_pow f (nat (n - 1)))) m"
    by (simp add: computeDelay_def)
next
  assume a: "1 \<le> n \<and> to_double (y ^ nat (n - 1)) = Val (y ^ nat (n - 1)) \<and>
    to_double (x * y ^ nat (n - 1)) = Val (x * y ^ nat (n - 1))"
  then have "js_pow (Val y) (nat (n - 1)) = Val (y ^ nat (n - 1))"
    by (simp add: js_pow_Val)
  then show "computeDelay n (Val x) (Val z) (Val y) False u = Val (min (x * y ^ nat (n - 1)) z)"
    using a by (simp add: computeDelay_def js_min_def min_def)
next
  assume "1 \<le> n \<and> js_pow f (nat (n - 1)) = Val p \<and> js_le (Val 0) m"
  then show "computeDelay n (Val 0) m f False u = Val 0"
    by (simp add: computeDelay_def to_double_zero js_min_le)
next
  assume a: "1 \<le> n \<and> is_double b"
  have "js_pow (Val 1) (nat (n - 1)) = Val 1"
    by (simp add: js_pow_Val to_double_one)
  then show "computeDelay n b m (Val 1) False u = js_min b m"
    using a by (simp add: computeDelay_def js_mul_one)
qed

text \<open>
  The delays of the tests: 100 doubled twice, a zero base delay, and a factor of 1.
\<close>
theorem computeDelay_no_jitter_witness:
  "computeDelay 3 (Val 100) (Val 30000) (Val 2) False (Val (1 / 2)) = Val 400 \<and>
   computeDelay 3 (Val 0) (Val 30000) (Val 2) False (Val (1 / 2)) = Val 0 \<and>
   computeDelay 3 (Val 100) (Val 30000) (Val 1) False (Val (1 / 2)) = Val 100"
proof -
  have n: "nat (3 - 1) = 2" by simp
  have h: "(1::int) \<le> 3 \<and> to_double (2 ^ nat (3 - 1)) = Val (2 ^ nat (3 - 1)) \<and>
    to_double (100 * 2 ^ nat (3 - 1)) = Val (100 * 2 ^ nat (3 - 1))"
    unfolding n by code_simp
  have k: "(1::int) \<le> 3 \<and> js_pow (Val 2) (nat (3 - 1)) = Val 4 \<and> js_le (Val 0) (Val 30000)"
    unfolding n by code_simp
  have d: "(1::int) \<le> 3 \<and> is_double (Val 100)" by code_simp
  have m: "js_min (Val 100) (Val 30000) = Val 100" by (simp add: js_min_def)
  show ?thesis
    using computeDelay_no_jitter [of 3 "Val 100" "Val 30000" "Val 2" "Val (1 / 2)" 2 100 30000 4]
      h k d m
    by (simp add: js_min_def)
qed

section \<open>Retry\<close>

text \<open>
  C2. An operation that fails on every invocation, \<open>maxAttempts = N \<ge> 1\<close>, no retry
  predicate, and a signal that is absent or never aborted: \<^verbatim>\<open>retry\<close> invokes the
  operation exactly \<open>N\<close> times, with the attempt numbers 1 to \<open>N\<close>, and then rejects with
  \<open>RetryError N e\<close>, where \<open>e\<close> is the error the last invocation threw.
\<close>
theorem retry_exhausted:
  fixes fn :: "int \<Rightarrow> 's \<Rightarrow> ('x thrown + 'a) \<times> 's"
  assumes "1 \<le> maxAttempts opts" and "retryIf opts = None" and "never_cancelled opts"
    and "\<forall>k s. \<exists>e. fst (fn k s) = Inl e"
  shows "\<exists>e. fst (retry fn opts rnd s) = Rejected (RetryError (maxAttempts opts) e) \<and>
             last (fst (snd (retry fn opts rnd s))) = Attempt (maxAttempts opts) (Some e) \<and>
             invocations (fst (snd (retry fn opts rnd s))) = [1..maxAttempts opts] \<and>
             int (length (invocations (fst (snd (retry fn opts rnd s))))) = maxAttempts opts"
proof -
  obtain e tr s' where
    run: "retry_loop fn opts rnd 1 Undefined s = (Break e, tr, s')" and
    inv: "invocations tr = [1..maxAttempts opts]" and
    lst: "last tr = Attempt (maxAttempts opts) (Some e)"
    using retry_loop_all_fail [OF assms(2,3,4,1), of rnd Undefined s] by blast
  have "fst (retry fn opts rnd s) = Rejected (RetryError (maxAttempts opts) e)"
    "fst (snd (retry fn opts rnd s)) = tr"
    using assms(1) run by (simp_all add: retry_def retry_body_def Let_def)
  then show ?thesis using inv lst assms(1) by simp
qed

text \<open>The test "throws RetryError after all attempts exhausted", with three attempts.\<close>
theorem retry_exhausted_witness:
  "fst (retry always_fails (no_jitter 0) coin 0) = Rejected (RetryError 3 (OtherError ''fail'')) \<and>
   invocations (fst (snd (retry always_fails (no_jitter 0) coin 0))) = [1, 2, 3] \<and>
   snd (snd (retry always_fails (no_jitter 0) coin 0)) = 3"
proof -
  have h1: "1 \<le> maxAttempts (no_jitter 0)" by (simp add: no_jitter_def default_options_def)
  have h2: "retryIf (no_jitter 0) = None" by (simp add: no_jitter_def default_options_def)
  have h3: "never_cancelled (no_jitter 0)"
    by (simp add: never_cancelled_def no_jitter_def default_options_def)
  have h4: "\<forall>k s. \<exists>e. fst (always_fails k s) = Inl e" by (simp add: always_fails_def)
  have "snd (snd (retry always_fails (no_jitter 0) coin 0)) = 3" by code_simp
  moreover have "last (fst (snd (retry always_fails (no_jitter 0) coin 0))) =
                 Attempt 3 (Some (OtherError ''fail''))" by code_simp
  moreover have "[1..maxAttempts (no_jitter 0)] = [1, 2, 3]" by code_simp
  moreover have "maxAttempts (no_jitter 0) = 3" by (simp add: no_jitter_def default_options_def)
  ultimately show ?thesis
    using retry_exhausted [OF h1 h2 h3 h4, of coin 0] by auto
qed



text \<open>
  C7 as stated fails where the cap binds: with \<open>maxAttempts = 3\<close>, jitter disabled,
  \<open>baseDelay = 20000\<close>, \<open>factor = 2\<close> and the default \<open>maxDelay = 30000\<close>, an operation
  failing twice then succeeding sees the hook called with the delays 20000 and 30000,
  and \<open>baseDelay * factor\<close> is 40000.
\<close>
theorem onRetry_delay_counterexample:
  "maxAttempts capped_options = 3 \<and> \<not> jitter capped_options \<and>
   fst (retry fails_twice capped_options coin 0) = Fulfilled \<lparr>data = ''ok'', attempts = 3\<rparr> \<and>
   hook_calls (fst (snd (retry fails_twice capped_options coin 0))) =
     [(OtherError ''fail'', 1, Val 20000), (OtherError ''fail'', 2, Val 30000)] \<and>
   js_mul (baseDelay capped_options) (factor capped_options) = Val 40000"
  by code_simp

text \<open>
  C7, amended. With a hook supplied, every trace of \<^verbatim>\<open>retry\<close> is a sequence of blocks
  \<open>Attempt k (Some e), OnRetry e k d, Sleep d w\<close>, numbered from 1, each with
  \<open>k < maxAttempts\<close> and \<open>d\<close> the delay computed after attempt \<open>k\<close>, followed by at most
  one attempt with no hook after it: the hook is called once per retried attempt, just
  before its sleep, with the error, the attempt number and the delay, and never after
  the final attempt. With \<open>maxAttempts = 3\<close>, jitter disabled, no cancellation and an
  operation failing twice (with errors the loop goes on after) then succeeding, the
  result has \<open>attempts = 3\<close> and the hook is called exactly twice, with the delays
  \<^verbatim>\<open>Math.min(baseDelay * Math.pow(factor, 0), maxDelay)\<close> and
  \<^verbatim>\<open>Math.min(baseDelay * Math.pow(factor, 1), maxDelay)\<close>. For settings that are
  JavaScript numbers these are \<^verbatim>\<open>Math.min(baseDelay, maxDelay)\<close> and
  \<^verbatim>\<open>Math.min(baseDelay * factor, maxDelay)\<close>, and they are \<open>baseDelay\<close> and
  \<open>baseDelay * factor\<close> when neither exceeds \<open>maxDelay\<close>.
\<close>
theorem onRetry_once_per_retried_attempt:
  fixes fn :: "int \<Rightarrow> 's \<Rightarrow> ('x thrown + 'a) \<times> 's"
  shows
  "(onRetry opts \<longrightarrow> hook_blocks opts rnd 1 (fst (snd (retry fn opts rnd s)))) \<and>
   (onRetry opts \<and> maxAttempts opts = 3 \<and> \<not> jitter opts \<and> never_cancelled opts \<and>
    fst (fn 1 s) = Inl e1 \<and> retryable opts e1 1 \<and>
    fst (fn 2 (snd (fn 1 s))) = Inl e2 \<and> retryable opts e2 2 \<and>
    fst (fn 3 (snd (fn 2 (snd (fn 1 s))))) = Inr v \<longrightarrow>
    fst (retry fn opts rnd s) = Fulfilled \<lparr>data = v, attempts = 3\<rparr> \<and>
    hook_calls (fst (snd (retry fn opts rnd s))) =
      [(e1, 1, js_min (js_mul (baseDelay opts) (js_pow (factor opts) 0)) (maxDelay opts)),
       (e2, 2, js_min (js_mul (baseDelay opts) (js_pow (factor opts) 1)) (maxDelay opts))] \<and>
    (is_double (baseDelay opts) \<and> is_double (factor opts) \<longrightarrow>
     hook_calls (fst (snd (retry fn opts rnd s))) =
       [(e1, 1, js_min (baseDelay opts) (maxDelay opts)),
        (e2, 2, js_min (js_mul (baseDelay opts) (factor opts)) (maxDelay opts))] \<and>
     (js_le (js_mul (baseDelay opts) (factor opts)) (maxDelay opts) \<and>
      js_le (baseDelay opts) (maxDelay opts) \<longrightarrow>
      hook_calls (fst (snd (retry fn opts rnd s))) =
        [(e1, 1, baseDelay opts), (e2, 2, js_mul (baseDelay opts) (factor opts))])))"
proof (intro conjI impI)
  assume "onRetry opts"
  then have "hook_blocks opts rnd 1 (fst (snd (retry_loop fn opts rnd 1 Undefined s)))"
    by (rule retry_loop_trace_blocks)
  then show "hook_blocks opts rnd 1 (fst (snd (retry fn opts rnd s)))"
    by (simp add: retry_def retry_body_def Let_def)
next
  assume a: "onRetry opts \<and> maxAttempts opts = 3 \<and> \<not> jitter opts \<and> never_cancelled opts \<and>
    fst (fn 1 s) = Inl e1 \<and> retryable opts e1 1 \<and>
    fst (fn 2 (snd (fn 1 s))) = Inl e2 \<and> retryable opts e2 2 \<and>
    fst (fn 3 (snd (fn 2 (snd (fn 1 s))))) = Inr v"
  then have nc: "never_cancelled opts" by simp
  let ?s1 = "snd (fn 1 s)"
  let ?s2 = "snd (fn 2 ?s1)"
  let ?d1 = "js_min (js_mul (baseDelay opts) (js_pow (factor opts) 0)) (maxDelay opts)"
  let ?d2 = "js_min (js_mul (baseDelay opts) (js_pow (factor opts) 1)) (maxDelay opts)"
  have d1: "computeDelay 1 (baseDelay opts) (maxDelay opts) (factor opts) (jitter opts) (rnd 1) = ?d1"
    using a by (simp add: computeDelay_def)
  have d2: "computeDelay 2 (baseDelay opts) (maxDelay opts) (factor opts) (jitter opts) (rnd 2) = ?d2"
    using a by (simp add: computeDelay_def)
  have r3: "retry_loop fn opts rnd 3 e2 ?s2 =
              (Return \<lparr>data = v, attempts = 3\<rparr>, [Attempt 3 None], snd (fn 3 ?s2))"
    using a never_cancelled_not_aborted [OF nc]
    by (intro retry_loop_return) simp_all
  have r2: "retry_loop fn opts rnd 2 e1 ?s1 =
              (Return \<lparr>data = v, attempts = 3\<rparr>,
               [Attempt 2 (Some e2), OnRetry e2 2 ?d2, Sleep ?d2 None, Attempt 3 None],
               snd (fn 3 ?s2))"
    using a r3 d2
      retry_loop_continue [where fn = fn and rnd = rnd and attempt = 2 and s = ?s1
        and opts = opts and e = e2 and lastError = e1,
        OF _ never_cancelled_not_aborted [OF nc] _ _ never_cancelled_sleep [OF nc]]
    by simp
  have r1: "retry_loop fn opts rnd 1 Undefined s =
              (Return \<lparr>data = v, attempts = 3\<rparr>,
               [Attempt 1 (Some e1), OnRetry e1 1 ?d1, Sleep ?d1 None,
                Attempt 2 (Some e2), OnRetry e2 2 ?d2, Sleep ?d2 None, Attempt 3 None],
               snd (fn 3 ?s2))"
    using a r2 d1
      retry_loop_continue [where fn = fn and rnd = rnd and attempt = 1 and s = s
        and opts = opts and e = e1 and lastError = Undefined,
        OF _ never_cancelled_not_aborted [OF nc] _ _ never_cancelled_sleep [OF nc]]
    by simp
  show "fst (retry fn opts rnd s) = Fulfilled \<lparr>data = v, attempts = 3\<rparr>"
    using a r1 by (simp add: retry_def retry_body_def Let_def)
  show hc: "hook_calls (fst (snd (retry fn opts rnd s))) = [(e1, 1, ?d1), (e2, 2, ?d2)]"
    using a r1 by (simp add: retry_def retry_body_def Let_def)
  assume dbl: "is_double (baseDelay opts) \<and> is_double (factor opts)"
  then have e1: "?d1 = js_min (baseDelay opts) (maxDelay opts)"
    and e2: "?d2 = js_min (js_mul (baseDelay opts) (factor opts)) (maxDelay opts)"
    by (simp_all add: js_mul_one js_pow_one)
  show hd: "hook_calls (fst (snd (retry fn opts rnd s))) =
       [(e1, 1, js_min (baseDelay opts) (maxDelay opts)),
        (e2, 2, js_min (js_mul (baseDelay opts) (factor opts)) (maxDelay opts))]"
    using hc e1 e2 by simp
  assume "js_le (js_mul (baseDelay opts) (factor opts)) (maxDelay opts) \<and>
      js_le (baseDelay opts) (maxDelay opts)"
  then show "hook_calls (fst (snd (retry fn opts rnd s))) =
        [(e1, 1, baseDelay opts), (e2, 2, js_mul (baseDelay opts) (factor opts))]"
    using hd by (simp add: js_min_le)
qed

text \<open>The test "onRetry is called with correct arguments", ending in a success.\<close>
theorem onRetry_once_per_retried_attempt_witness:
  "hook_blocks (no_jitter 100) coin 1 (fst (snd (retry fails_twice (no_jitter 100) coin 0))) \<and>
   fst (retry fails_twice (no_jitter 100) coin 0) = Fulfilled \<lparr>data = ''ok'', attempts = 3\<rparr> \<and>
   hook_calls (fst (snd (retry fails_twice (no_jitter 100) coin 0))) =
     [(OtherError ''fail'', 1, Val 100), (OtherError ''fail'', 2, Val 200)]"
proof -
  have sc: "onRetry (no_jitter 100) \<and> maxAttempts (no_jitter 100) = 3 \<and>
    \<not> jitter (no_jitter 100) \<and> never_cancelled (no_jitter 100) \<and>
    fst (fails_twice 1 0) = Inl (OtherError ''fail'') \<and>
    retryable (no_jitter 100) (OtherError ''fail'') 1 \<and>
    fst (fails_twice 2 (snd (fails_twice 1 0))) = Inl (OtherError ''fail'') \<and>
    retryable (no_jitter 100) (OtherError ''fail'') 2 \<and>
    fst (fails_twice 3 (snd (fails_twice 2 (snd (fails_twice 1 0))))) = Inr ''ok''"
    by (simp add: no_jitter_def default_options_def never_cancelled_def fails_twice_def
        retryable_def)
  have dbl: "is_double (baseDelay (no_jitter 100)) \<and> is_double (factor (no_jitter 100))"
    by code_simp
  have le: "js_le (js_mul (baseDelay (no_jitter 100)) (factor (no_jitter 100)))
              (maxDelay (no_jitter 100)) \<and>
            js_le (baseDelay (no_jitter 100)) (maxDelay (no_jitter 100))"
    by code_simp
  have v: "baseDelay (no_jitter 100) = Val 100"
    "js_mul (baseDelay (no_jitter 100)) (factor (no_jitter 100)) = Val 200"
    by code_simp+
  note t = onRetry_once_per_retried_attempt [of "no_jitter 100" coin fails_twice 0
      "OtherError ''fail''" "OtherError ''fail''" "''ok''"]
  from t sc have "hook_blocks (no_jitter 100) coin 1
      (fst (snd (retry fails_twice (no_jitter 100) coin 0)))"
    by blast
  moreover from t sc have "fst (retry fails_twice (no_jitter 100) coin 0) =
      Fulfilled \<lparr>data = ''ok'', attempts = 3\<rparr>"
    by blast
  moreover from t sc dbl le have "hook_calls (fst (snd (retry fails_twice (no_jitter 100) coin 0))) =
      [(OtherError ''fail'', 1, baseDelay (no_jitter 100)),
       (OtherError ''fail'', 2, js_mul (baseDelay (no_jitter 100)) (factor (no_jitter 100)))]"
    by blast
  ultimately show ?thesis unfolding v(2) unfolding v(1) by simp
qed

text \<open>
  C9 as stated fails: with \<open>maxAttempts = 0\<close> the call raises nothing; the promise it
  returns rejects with the \<open>RangeError\<close>.
\<close>
theorem retry_rejects_counterexample:
  "maxAttempts invalid_options < 1 \<and>
   fst (retry ok_first invalid_options coin 0) = Rejected RangeError \<and>
   fst (retry ok_first invalid_options coin 0) \<noteq> Raised RangeError"
  by (simp add: invalid_options_def default_options_def retry_def retry_body_def)

text \<open>
  C9, amended. With \<open>maxAttempts < 1\<close>, \<^verbatim>\<open>retry\<close> rejects the promise it returns with
  a \<open>RangeError\<close>, before any attempt: the trace is empty and the caller's state is
  unchanged, so the operation is never invoked.
\<close>
theorem retry_rejects_invalid_maxAttempts:
  "maxAttempts opts < 1 \<Longrightarrow> retry fn opts rnd s = (Rejected RangeError, [], s)"
  by (simp add: retry_def retry_body_def)

text \<open>The test "throws RangeError for maxAttempts < 1".\<close>
theorem retry_rejects_invalid_maxAttempts_witness:
  "retry ok_first invalid_options coin 0 = (Rejected RangeError, [], 0)"
proof -
  have "maxAttempts invalid_options < 1" by (simp add: invalid_options_def default_options_def)
  then show ?thesis by (rule retry_rejects_invalid_maxAttempts)
qed

section \<open>Breaker steps\<close>


lemma checkHalfOpen_early:
  "now - lastFailureTime b < resetTimeout b \<Longrightarrow> checkHalfOpen now b = b"
  by (simp add: checkHalfOpen_def)

lemma checkHalfOpen_elapsed:
  "state b = Open \<Longrightarrow> resetTimeout b \<le> now - lastFailureTime b \<Longrightarrow>
   checkHalfOpen now b =
     b\<lparr>state := HalfOpen,
       notified := notified b @ (if onStateChange b then [(Open, HalfOpen)] else []),
       successes := 0\<rparr>"
  by (simp add: checkHalfOpen_def transition_def)

lemma checkHalfOpen_open_iff:
  "state (checkHalfOpen now b) = Open \<longleftrightarrow>
   state b = Open \<and> now - lastFailureTime b < resetTimeout b"
  by (auto simp: checkHalfOpen_def transition_def)

lemma call_rejected:
  "state (checkHalfOpen t0 b) = Open \<Longrightarrow>
   call t0 fn t1 (b, w) = (Inl (CircuitOpenError (failures b)), b, w)"
  using checkHalfOpen_open_iff [of t0 b]
  by (simp add: call_def Let_def checkHalfOpen_early)





lemma opened_eq:
  "opened =
     (\<lparr>state = Open, failures = 3, successes = 0, lastFailureTime = 2, failureThreshold = 3,
       resetTimeout = 60000, halfOpenSuccesses = 1, onStateChange = True,
       notified = [(Closed, Open)]\<rparr>, 3)"
  by (simp add: opened_def three_failures_def breaker_of_def new_CircuitBreaker_def call_def
      checkHalfOpen_def onFailure_def transition_def failing_op_def Let_def)

section \<open>Retry through a breaker\<close>

lemma breaker_attempt_rejected:
  fixes fn :: "int \<Rightarrow> 'w \<Rightarrow> ('x thrown + 'a) \<times> 'w"
  assumes "a \<le> maxAttempts retryOptions"
    and "\<not> signal_aborted aborted_before (signal retryOptions) a"
    and "fst (getState (fst (clock a)) b) = Open"
  shows "retry_loop (breaker_attempt fn clock) (breaker_options retryOptions) rnd a le (b, w) =
         (Throw (CircuitOpenError (failures b)),
          [Attempt a (Some (CircuitOpenError (failures b)))], (b, w))"
proof -
  let ?opts = "breaker_options retryOptions"
  let ?e = "CircuitOpenError (failures b) :: 'x thrown"
  have st: "state (checkHalfOpen (fst (clock a)) b) = Open"
    using assms(3) by (simp add: getState_def Let_def)
  have run: "breaker_attempt fn clock a (b, w) = (Inl ?e, b, w)"
    unfolding breaker_attempt_def by (rule call_rejected [OF st])
  have "retry_loop (breaker_attempt fn clock) ?opts rnd a le (b, w) =
        (Throw ?e, [Attempt a (Some ?e)], snd (breaker_attempt fn clock a (b, w)))"
    using assms(1,2) run
    by (intro retry_loop_filtered [where p = "breaker_retryIf (retryIf retryOptions)"])
       (simp_all add: breaker_options_def breaker_retryIf_def)
  then show ?thesis using run by simp
qed

text \<open>
  C5 as stated fails when the breaker has left the open state by the next attempt. With
  threshold 1 and \<open>resetTimeout = 50\<close>, three attempts and \<open>baseDelay = 1000\<close>, the breaker
  opens at the first failure; the second attempt comes 1000 ms later, finds the timeout
  elapsed and probes; so does the third. The operation runs three times and the run
  ends with the \<open>RetryError\<close> of exhausted attempts, not with a \<open>CircuitOpenError\<close>.
\<close>
theorem callWithRetry_reopens_counterexample:
  "state (fst (snd (breaker_attempt always_fails slow_clock 1 (breaker_of 1 50 1, 0)))) = Open \<and>
   fst (callWithRetry always_fails (no_jitter 1000) slow_clock coin (breaker_of 1 50 1, 0)) =
     Rejected (RetryError 3 (OtherError ''fail'')) \<and>
   invocations (fst (snd (callWithRetry always_fails (no_jitter 1000) slow_clock coin
     (breaker_of 1 50 1, 0)))) = [1, 2, 3] \<and>
   snd (snd (snd (callWithRetry always_fails (no_jitter 1000) slow_clock coin
     (breaker_of 1 50 1, 0)))) = 3"
  by code_simp

text \<open>
  C5, amended. The predicate \<^verbatim>\<open>callWithRetry\<close> installs returns false for every
  \<open>CircuitOpenError\<close> and is the caller's predicate (true without one) for every other
  error. In every run of \<^verbatim>\<open>callWithRetry\<close>, an attempt that failed with a
  \<open>CircuitOpenError\<close> is the last event of the run, with no hook call, sleep or attempt
  after it, and the run rejects with that error itself, not wrapped in a \<open>RetryError\<close>.
  Whenever the loop comes to an attempt \<open>a \<le> maxAttempts\<close> with the breaker open at that
  time (\<open>resetTimeout\<close> not elapsed) and the signal not aborted, the attempt is rejected
  without the operation being invoked and the loop ends there with the
  \<open>CircuitOpenError\<close>, whatever number of attempts remains.
\<close>
theorem callWithRetry_stops_at_open_circuit:
  fixes fn :: "int \<Rightarrow> 'w \<Rightarrow> ('x thrown + 'a) \<times> 'w"
  shows
  "breaker_retryIf user (CircuitOpenError n) k = False \<and>
   (\<not> instanceof_CircuitOpenError e \<longrightarrow>
      breaker_retryIf user e k = (case user of None \<Rightarrow> True | Some p \<Rightarrow> p e k)) \<and>
   circuit_open_ends (fst (callWithRetry fn retryOptions clock rnd bw))
     (fst (snd (callWithRetry fn retryOptions clock rnd bw))) \<and>
   (a \<le> maxAttempts retryOptions \<and>
    \<not> signal_aborted aborted_before (signal retryOptions) a \<and>
    fst (getState (fst (clock a)) b) = Open \<longrightarrow>
      retry_loop (breaker_attempt fn clock) (breaker_options retryOptions) rnd a le (b, w) =
        (Throw (CircuitOpenError (failures b)),
         [Attempt a (Some (CircuitOpenError (failures b)))], (b, w)))"
proof (intro conjI impI)
  let ?opts = "breaker_options retryOptions"
  let ?fn = "breaker_attempt fn clock"
  have "retryIf ?opts = Some (breaker_retryIf (retryIf retryOptions))"
    by (simp add: breaker_options_def)
  then have "circuit_open_ends
      (async (after_loop (maxAttempts ?opts) (fst (retry_loop ?fn ?opts rnd 1 Undefined bw))))
      (fst (snd (retry_loop ?fn ?opts rnd 1 Undefined bw)))"
    by (rule retry_loop_circuit_open_ends)
  then show "circuit_open_ends (fst (callWithRetry fn retryOptions clock rnd bw))
     (fst (snd (callWithRetry fn retryOptions clock rnd bw)))"
    by (simp add: callWithRetry_def retry_def retry_body_def Let_def)
next
  assume "a \<le> maxAttempts retryOptions \<and>
    \<not> signal_aborted aborted_before (signal retryOptions) a \<and>
    fst (getState (fst (clock a)) b) = Open"
  then show "retry_loop (breaker_attempt fn clock) (breaker_options retryOptions) rnd a le (b, w) =
        (Throw (CircuitOpenError (failures b)),
         [Attempt a (Some (CircuitOpenError (failures b)))], (b, w))"
    by (intro breaker_attempt_rejected) simp_all
qed (simp_all add: breaker_retryIf_def)

text \<open>
  The test "callWithRetry stops on circuit open": threshold 2, ten attempts allowed, no
  delay. The wrapped operation runs twice, the third attempt finds the breaker open
  and is rejected, and the run ends there.
\<close>
theorem callWithRetry_stops_at_open_circuit_witness:
  "fst (callWithRetry always_fails ten_attempts frozen_clock coin (breaker_of 2 60000 1, 0)) =
     Rejected (CircuitOpenError 2) \<and>
   fst (snd (callWithRetry always_fails ten_attempts frozen_clock coin (breaker_of 2 60000 1, 0))) =
     [Attempt 1 (Some (OtherError ''fail'')), Sleep (Val 0) None,
      Attempt 2 (Some (OtherError ''fail'')), Sleep (Val 0) None,
      Attempt 3 (Some (CircuitOpenError 2))] \<and>
   snd (snd (snd (callWithRetry always_fails ten_attempts frozen_clock coin
     (breaker_of 2 60000 1, 0)))) = 2 \<and>
   circuit_open_ends
     (fst (callWithRetry always_fails ten_attempts frozen_clock coin (breaker_of 2 60000 1, 0)))
     (fst (snd (callWithRetry always_fails ten_attempts frozen_clock coin
        (breaker_of 2 60000 1, 0)))) \<and>
   \<not> breaker_retryIf None (CircuitOpenError 2 :: string thrown) 3 \<and>
   breaker_retryIf None (OtherError ''fail'') 1 \<and>
   retry_loop (breaker_attempt always_fails frozen_clock) (breaker_options ten_attempts) coin 4
       Undefined opened =
     (Throw (CircuitOpenError 3), [Attempt 4 (Some (CircuitOpenError 3))], opened)"
proof -
  have run: "fst (callWithRetry always_fails ten_attempts frozen_clock coin (breaker_of 2 60000 1, 0)) =
     Rejected (CircuitOpenError 2)"
   "fst (snd (callWithRetry always_fails ten_attempts frozen_clock coin (breaker_of 2 60000 1, 0))) =
     [Attempt 1 (Some (OtherError ''fail'')), Sleep (Val 0) None,
      Attempt 2 (Some (OtherError ''fail'')), Sleep (Val 0) None,
      Attempt 3 (Some (CircuitOpenError 2))]"
   "snd (snd (snd (callWithRetry always_fails ten_attempts frozen_clock coin
     (breaker_of 2 60000 1, 0)))) = 2"
    by code_simp+
  have hyp: "4 \<le> maxAttempts ten_attempts \<and>
    \<not> signal_aborted aborted_before (signal ten_attempts) 4 \<and>
    fst (getState (fst (frozen_clock 4)) (fst opened)) = Open"
    by (simp add: ten_attempts_def default_options_def signal_aborted_def opened_eq
        frozen_clock_def getState_def checkHalfOpen_def)
  have op: "opened = (fst opened, snd opened)" "failures (fst opened) = 3"
    by (simp_all add: opened_eq)
  have "retry_loop (breaker_attempt always_fails frozen_clock) (breaker_options ten_attempts)
          coin 4 Undefined (fst opened, snd opened) =
        (Throw (CircuitOpenError (failures (fst opened))),
         [Attempt 4 (Some (CircuitOpenError (failures (fst opened))))], (fst opened, snd opened))"
    using callWithRetry_stops_at_open_circuit [of None 2 3 "OtherError ''fail''" always_fails
        ten_attempts frozen_clock coin "(breaker_of 2 60000 1, 0)" 4 "fst opened" Undefined
        "snd opened"] hyp
    by blast
  then have last: "retry_loop (breaker_attempt always_fails frozen_clock)
       (breaker_options ten_attempts) coin 4 Undefined opened =
     (Throw (CircuitOpenError 3), [Attempt 4 (Some (CircuitOpenError 3))], opened)"
    using op by simp
  show ?thesis
    using run last
      callWithRetry_stops_at_open_circuit [of None 2 3 "OtherError ''fail''" always_fails
        ten_attempts frozen_clock coin "(breaker_of 2 60000 1, 0)" 4 "fst opened" Undefined
        "snd opened"]
      callWithRetry_stops_at_open_circuit [of None 2 1 "OtherError ''fail''" always_fails
        ten_attempts frozen_clock coin "(breaker_of 2 60000 1, 0)" 4 "fst opened" Undefined
        "snd opened"]
    by simp
qed

section \<open>The circuit breaker\<close>



text \<open>
  C4. For an open breaker, an access at time \<open>now\<close>:
  before \<open>resetTimeout\<close> has elapsed since \<open>lastFailureTime\<close>, \<^verbatim>\<open>getState\<close> reports open
  and \<^verbatim>\<open>call\<close> rejects, both leaving the breaker as it was; once it has elapsed, however
  long ago, \<^verbatim>\<open>getState\<close> moves the breaker to half-open (success count 0, the hook told
  of open to half-open) and reports half-open, and \<^verbatim>\<open>call\<close> makes the same move and then
  runs the operation on the half-open breaker. The breaker is a value that only its
  methods change: no timer exists in the class, so nothing happens between accesses.
\<close>
theorem open_becomes_half_open_on_access:
  fixes fn :: "'w \<Rightarrow> ('x thrown + 'a) \<times> 'w"
  assumes "state b = Open"
  shows
  "(now - lastFailureTime b < resetTimeout b \<longrightarrow>
      getState now b = (Open, b) \<and>
      call now fn t1 (b, w) = (Inl (CircuitOpenError (failures b)), b, w)) \<and>
   (resetTimeout b \<le> now - lastFailureTime b \<longrightarrow>
      getState now b =
        (HalfOpen,
         b\<lparr>state := HalfOpen,
           notified := notified b @ (if onStateChange b then [(Open, HalfOpen)] else []),
           successes := 0\<rparr>) \<and>
      call now fn t1 (b, w) =
        (case fst (fn w) of
           Inr result \<Rightarrow> (Inr result, onSuccess (snd (getState now b)), snd (fn w))
         | Inl error \<Rightarrow> (Inl error, onFailure t1 (snd (getState now b)), snd (fn w))))"
  using assms
  by (simp add: getState_def call_def Let_def checkHalfOpen_early checkHalfOpen_elapsed
      split: sum.splits)

lemma tripped_eq:
  "tripped =
     (\<lparr>state = Open, failures = 1, successes = 0, lastFailureTime = 0, failureThreshold = 1,
       resetTimeout = 50, halfOpenSuccesses = 1, onStateChange = True,
       notified = [(Closed, Open)]\<rparr>, 1)"
  by (simp add: tripped_def breaker_of_def new_CircuitBreaker_def call_def checkHalfOpen_def
      onFailure_def transition_def failing_op_def Let_def)

lemma probing_eq:
  "probing =
     (\<lparr>state = HalfOpen, failures = 1, successes = 1, lastFailureTime = 0, failureThreshold = 1,
       resetTimeout = 50, halfOpenSuccesses = 2, onStateChange = True,
       notified = [(Closed, Open), (Open, HalfOpen)]\<rparr>, 2)"
  by (simp add: probing_def breaker_of_def new_CircuitBreaker_def call_def checkHalfOpen_def
      onFailure_def onSuccess_def transition_def failing_op_def ok_op_def Let_def)

text \<open>
  A breaker opened at time 0 with \<open>resetTimeout = 50\<close>: still open at 49, half-open when
  first read at 1000000, and a call at 60 probes and closes it.
\<close>
theorem open_becomes_half_open_on_access_witness:
  "state (fst tripped) = Open \<and>
   getState 49 (fst tripped) = (Open, fst tripped) \<and>
   call 49 ok_op 49 tripped = (Inl (CircuitOpenError 1), tripped) \<and>
   fst (getState 1000000 (fst tripped)) = HalfOpen \<and>
   notified (snd (getState 1000000 (fst tripped))) = [(Closed, Open), (Open, HalfOpen)] \<and>
   fst (call 60 ok_op 60 tripped) = Inr ''ok'' \<and>
   notified (fst (snd (call 60 ok_op 60 tripped))) =
     [(Closed, Open), (Open, HalfOpen), (HalfOpen, Closed)] \<and>
   snd (snd (call 60 ok_op 60 tripped)) = 2"
proof -
  have op: "state (fst tripped) = Open" by (simp add: tripped_eq)
  have early: "49 - lastFailureTime (fst tripped) < resetTimeout (fst tripped)"
    by (simp add: tripped_eq)
  have late: "resetTimeout (fst tripped) \<le> 1000000 - lastFailureTime (fst tripped)"
    "resetTimeout (fst tripped) \<le> 60 - lastFailureTime (fst tripped)"
    by (simp_all add: tripped_eq)
  have tr: "tripped = (fst tripped, snd tripped)" by simp
  have a: "getState 49 (fst tripped) = (Open, fst tripped)"
    "call 49 ok_op 49 (fst tripped, snd tripped) =
       (Inl (CircuitOpenError (failures (fst tripped))), fst tripped, snd tripped)"
    using open_becomes_half_open_on_access [OF op, of 49 ok_op 49 "snd tripped"] early
    by simp_all
  have b: "getState 1000000 (fst tripped) =
        (HalfOpen,
         (fst tripped)\<lparr>state := HalfOpen,
           notified := notified (fst tripped) @
             (if onStateChange (fst tripped) then [(Open, HalfOpen)] else []),
           successes := 0\<rparr>)"
    using open_becomes_half_open_on_access [OF op, of 1000000 ok_op 0 "snd tripped"] late
    by simp
  have c: "call 60 ok_op 60 (fst tripped, snd tripped) =
        (case fst (ok_op (snd tripped)) of
           Inr result \<Rightarrow>
             (Inr result, onSuccess (snd (getState 60 (fst tripped))), snd (ok_op (snd tripped)))
         | Inl error \<Rightarrow>
             (Inl error, onFailure 60 (snd (getState 60 (fst tripped))), snd (ok_op (snd tripped))))"
    using open_becomes_half_open_on_access [OF op, of 60 ok_op 60 "snd tripped"] late
    by simp
  have c': "call 60 ok_op 60 tripped =
        (Inr ''ok'',
         \<lparr>state = Closed, failures = 0, successes = 0, lastFailureTime = 0, failureThreshold = 1,
          resetTimeout = 50, halfOpenSuccesses = 1, onStateChange = True,
          notified = [(Closed, Open), (Open, HalfOpen), (HalfOpen, Closed)]\<rparr>, 2)"
    using c
    by (simp add: tripped_eq ok_op_def getState_def checkHalfOpen_def onSuccess_def
        transition_def Let_def)
  have a': "call 49 ok_op 49 tripped = (Inl (CircuitOpenError 1), tripped)"
    using a(2) by (simp add: tripped_eq)
  show ?thesis
    using op a(1) a' b c' by (simp add: tripped_eq)
qed

text \<open>
  C10. \<^verbatim>\<open>getFailures\<close> returns the failure count and leaves every field of the breaker
  as it was, in every state. In particular, for an open breaker whose \<open>resetTimeout\<close> has
  elapsed, the breaker is still open after \<^verbatim>\<open>getFailures\<close> and the hook has not been
  called, where \<^verbatim>\<open>getState\<close> at the same time reports half-open and calls the hook.
\<close>
theorem getFailures_is_pure_read:
  "getFailures b = (failures b, b) \<and>
   (state b = Open \<and> resetTimeout b \<le> now - lastFailureTime b \<longrightarrow>
      state (snd (getFailures b)) = Open \<and>
      notified (snd (getFailures b)) = notified b \<and>
      fst (getState now b) = HalfOpen \<and>
      notified (snd (getState now b)) =
        notified b @ (if onStateChange b then [(Open, HalfOpen)] else []))"
  by (simp add: getFailures_def getState_def Let_def checkHalfOpen_elapsed)

text \<open>The breaker opened at time 0, read at time 60.\<close>
theorem getFailures_is_pure_read_witness:
  "getFailures (fst tripped) = (1, fst tripped) \<and>
   state (snd (getFailures (fst tripped))) = Open \<and>
   notified (snd (getFailures (fst tripped))) = [(Closed, Open)] \<and>
   fst (getState 60 (fst tripped)) = HalfOpen \<and>
   notified (snd (getState 60 (fst tripped))) = [(Closed, Open), (Open, HalfOpen)]"
proof -
  have "state (fst tripped) = Open \<and>
        resetTimeout (fst tripped) \<le> 60 - lastFailureTime (fst tripped)"
    by (simp add: tripped_eq)
  then show ?thesis
    using getFailures_is_pure_read [of "fst tripped" 60] by (simp add: tripped_eq)
qed

text \<open>
  C8 as stated fails on the transition from half-open to open: with
  \<open>halfOpenSuccesses = 2\<close>, a breaker that has seen one successful probe has
  \<open>successes = 1\<close>; a failing probe then opens it and \<open>successes\<close> is still 1.
\<close>
theorem successes_kept_counterexample:
  "state (fst probing) = HalfOpen \<and> successes (fst probing) = 1 \<and>
   state (fst (calls [(70, failing_op, 70)] probing)) = Open \<and>
   successes (fst (calls [(70, failing_op, 70)] probing)) = 1"
  by (simp add: probing_eq call_def checkHalfOpen_def onFailure_def transition_def
      failing_op_def Let_def)

text \<open>
  C8, amended. \<open>successes\<close> is 0 after every transition into half-open (only
  \<^verbatim>\<open>checkHalfOpen\<close> enters half-open) and after every transition from half-open to
  closed (\<^verbatim>\<open>onSuccess\<close> reaching the threshold, or \<^verbatim>\<open>reset\<close>). The transition from
  half-open to open, taken by \<^verbatim>\<open>onFailure\<close> when a probe fails, leaves \<open>successes\<close>
  unchanged; the next entry into half-open resets it.
\<close>
theorem successes_reset_on_transitions:
  "(state b \<noteq> HalfOpen \<and> state (checkHalfOpen now b) = HalfOpen \<longrightarrow>
      successes (checkHalfOpen now b) = 0) \<and>
   (state b \<noteq> HalfOpen \<longrightarrow>
      state (onSuccess b) \<noteq> HalfOpen \<and> state (onFailure now b) \<noteq> HalfOpen \<and>
      state (reset b) \<noteq> HalfOpen) \<and>
   (state b = HalfOpen \<and> state (onSuccess b) \<noteq> HalfOpen \<longrightarrow>
      state (onSuccess b) = Closed \<and> successes (onSuccess b) = 0) \<and>
   (state b = HalfOpen \<longrightarrow> state (reset b) = Closed \<and> successes (reset b) = 0) \<and>
   (state b = HalfOpen \<longrightarrow>
      state (onFailure now b) = Open \<and> successes (onFailure now b) = successes b)"
  by (auto simp: checkHalfOpen_def onSuccess_def onFailure_def reset_def transition_def Let_def
      split: if_splits)

text \<open>The half-open breaker with one successful probe, through each transition.\<close>
theorem successes_reset_on_transitions_witness:
  "state (fst probing) = HalfOpen \<and> successes (fst probing) = 1 \<and>
   state (onFailure 70 (fst probing)) = Open \<and>
   successes (onFailure 70 (fst probing)) = 1 \<and>
   state (checkHalfOpen 200 (onFailure 70 (fst probing))) = HalfOpen \<and>
   successes (checkHalfOpen 200 (onFailure 70 (fst probing))) = 0 \<and>
   state (onSuccess (fst probing)) = Closed \<and>
   successes (onSuccess (fst probing)) = 0 \<and>
   successes (reset (fst probing)) = 0"
proof -
  have h: "state (fst probing) = HalfOpen" "successes (fst probing) = 1"
    by (simp_all add: probing_eq)
  have f: "onFailure 70 (fst probing) =
     \<lparr>state = Open, failures = 2, successes = 1, lastFailureTime = 70, failureThreshold = 1,
      resetTimeout = 50, halfOpenSuccesses = 2, onStateChange = True,
      notified = [(Closed, Open), (Open, HalfOpen), (HalfOpen, Open)]\<rparr>"
    by (simp add: probing_eq onFailure_def transition_def Let_def)
  have g: "state (onFailure 70 (fst probing)) \<noteq> HalfOpen \<and>
           state (checkHalfOpen 200 (onFailure 70 (fst probing))) = HalfOpen"
    by (simp add: f checkHalfOpen_def transition_def)
  have k: "state (fst probing) = HalfOpen \<and> state (onSuccess (fst probing)) \<noteq> HalfOpen"
    by (simp add: probing_eq onSuccess_def transition_def Let_def)
  show ?thesis
    using successes_reset_on_transitions [of "fst probing" 70]
      successes_reset_on_transitions [of "onFailure 70 (fst probing)" 200] h g k
    by simp
qed

end
